theory Spec2Isabelle
  imports Main "HOL-Library.Word"
begin

section \<open>The minimal MQTT client: data model\<close>

text \<open>
  The client of \<^verbatim>\<open>minimal-mqtt-client.c\<close> is one callback, \<^verbatim>\<open>callback_mqtt\<close>, driven by
  the event loop of \<^verbatim>\<open>main\<close>. C's \<^verbatim>\<open>int\<close> is a 32-bit word and \<^verbatim>\<open>size_t\<close> a 64-bit word
  (LP64). The callback compares its \<^verbatim>\<open>int\<close> values for equality only, so no signed reading
  of them is needed. Arithmetic on words wraps around, which is what C prescribes for
  \<^verbatim>\<open>size_t\<close>; for \<^verbatim>\<open>int\<close> the C standard leaves the overflow of \<^verbatim>\<open>++\<close> and \<^verbatim>\<open>--\<close> undefined, and
  the model takes the two's complement result there.
\<close>

type_synonym c_int = "32 word"
type_synonym size_t = "64 word"

text \<open>The anonymous enum of the states (lines 17-25).\<close>

abbreviation (input) STATE_SUBSCRIBE :: c_int where "STATE_SUBSCRIBE \<equiv> 0"
abbreviation (input) STATE_PUBLISH_QOS0 :: c_int where "STATE_PUBLISH_QOS0 \<equiv> 1"
abbreviation (input) STATE_WAIT_ACK0 :: c_int where "STATE_WAIT_ACK0 \<equiv> 2"
abbreviation (input) STATE_PUBLISH_QOS1 :: c_int where "STATE_PUBLISH_QOS1 \<equiv> 3"
abbreviation (input) STATE_WAIT_ACK1 :: c_int where "STATE_WAIT_ACK1 \<equiv> 4"
abbreviation (input) STATE_TEST_FINISH :: c_int where "STATE_TEST_FINISH \<equiv> 5"

text \<open>\<^verbatim>\<open>#define TEST_STRING_LEN 1337\<close>, converted to \<^verbatim>\<open>size_t\<close> where it meets \<^verbatim>\<open>pss->pos\<close>.\<close>

abbreviation (input) TEST_STRING_LEN :: size_t where "TEST_STRING_LEN \<equiv> 1337"

text \<open>The payload literal (lines 60-80).\<close>

definition test_string :: string where
  "test_string =
    ''No one would have believed in the last years of the nineteenth '' @
    ''century that this world was being watched keenly and closely by '' @
    ''intelligences greater than man's and yet as mortal as his own; that as '' @
    ''men busied themselves about their various concerns they were '' @
    ''scrutinised and studied, perhaps almost as narrowly as a man with a '' @
    ''microscope might scrutinise the transient creatures that swarm and '' @
    ''multiply in a drop of water.  With infinite complacency men went to '' @
    ''and fro over this globe about their little affairs, serene in their '' @
    ''assurance of their empire over matter. It is possible that the '' @
    ''infusoria under the microscope do the same.  No one gave a thought to '' @
    ''the older worlds of space as sources of human danger, or thought of '' @
    ''them only to dismiss the idea of life upon them as impossible or '' @
    ''improbable.  It is curious to recall some of the mental habits of '' @
    ''those departed days.  At most terrestrial men fancied there might be '' @
    ''other men upon Mars, perhaps inferior to themselves and ready to '' @
    ''welcome a missionary enterprise. Yet across the gulf of space, minds '' @
    ''that are to our minds as ours are to those of the beasts that perish, '' @
    ''intellects vast and cool and unsympathetic, regarded this earth with '' @
    ''envious eyes, and slowly and surely drew their plans against us.  And '' @
    ''early in the twentieth century came the great disillusionment. ''"

text \<open>\<^verbatim>\<open>struct pss\<close> (lines 85-89).\<close>

record pss =
  state :: c_int
  pos :: size_t
  retries :: c_int

datatype qos = QOS0 | QOS1

text \<open>
  The calls the callback makes into the library, in the order it makes them. A send
  primitive is recorded when it is called, whatever it returns. \<open>Send_publish q off n fin\<close>
  stands for \<^verbatim>\<open>lws_mqtt_client_send_publish(wsi, &pub_param, test_string + off, n, fin)\<close>
  with \<^verbatim>\<open>pub_param.qos = q\<close>.
\<close>

datatype lws_call =
    Callback_on_writable
  | Send_subscribe
  | Send_publish qos size_t size_t bool
  | Cancel_service

text \<open>
  What the callback reads and writes: the per-session block, the statics \<^verbatim>\<open>interrupted\<close>
  and \<^verbatim>\<open>bad\<close> (line 27), and the library calls made so far.
\<close>

record world =
  sess :: pss
  interrupted :: c_int
  bad :: c_int
  calls :: "lws_call list"

text \<open>The reasons \<^verbatim>\<open>callback_mqtt\<close> switches on; every other reason takes \<^verbatim>\<open>default\<close>.\<close>

datatype lws_callback_reasons =
    LWS_CALLBACK_CLIENT_CONNECTION_ERROR
  | LWS_CALLBACK_MQTT_CLIENT_CLOSED
  | LWS_CALLBACK_MQTT_CLIENT_ESTABLISHED
  | LWS_CALLBACK_MQTT_SUBSCRIBED
  | LWS_CALLBACK_MQTT_CLIENT_WRITEABLE
  | LWS_CALLBACK_MQTT_ACK
  | LWS_CALLBACK_MQTT_RESEND
  | LWS_CALLBACK_MQTT_CLIENT_RX
  | LWS_CALLBACK_OTHER

text \<open>
  One invocation of the callback: the reason, whether \<^verbatim>\<open>in\<close> is \<^verbatim>\<open>NULL\<close>, and what the
  send primitive returns if this invocation calls one (0 is success).
\<close>

record callback_args =
  reason :: lws_callback_reasons
  in_null :: bool
  send_rc :: c_int

datatype callback_error = Assertion_failed

section \<open>The chunked payload feeder\<close>

text \<open>
  Lines 213-216 and 220, with the chunk limit (300) and the payload length
  (\<^verbatim>\<open>TEST_STRING_LEN\<close>) as parameters: \<^verbatim>\<open>chunk = maxc; if (chunk > len - pos) chunk = len - pos\<close>,
  in unsigned 64-bit arithmetic, and the final flag \<^verbatim>\<open>pos + chunk == len\<close>.
\<close>

definition chunk_size :: "size_t \<Rightarrow> size_t \<Rightarrow> size_t \<Rightarrow> size_t" where
  "chunk_size maxc len p = (if maxc > len - p then len - p else maxc)"

definition is_final :: "size_t \<Rightarrow> size_t \<Rightarrow> size_t \<Rightarrow> bool" where
  "is_final len p chunk = (p + chunk = len)"

text \<open>
  Lines 201-229, the publish case of a writable callback: build the call, return -1 when
  the send fails, else advance \<^verbatim>\<open>pos\<close> and, at the end of the payload, reset it and move to
  the next state.
\<close>

definition publish_case :: "size_t \<Rightarrow> size_t \<Rightarrow> world \<Rightarrow> c_int \<Rightarrow> c_int \<times> world" where
  "publish_case maxc len w rc =
    (let s = sess w;
         q = (if state s = STATE_PUBLISH_QOS0 then QOS0 else QOS1);
         chunk = chunk_size maxc len (pos s);
         w1 = w\<lparr>calls := calls w @ [Send_publish q (pos s) chunk (is_final len (pos s) chunk)]\<rparr>
     in if rc \<noteq> 0 then (- 1, w1)
        else
          let p' = pos s + chunk
          in if p' = len
             then (0, w1\<lparr>sess := s\<lparr>pos := 0, state := state s + 1\<rparr>\<rparr>)
             else (0, w1\<lparr>sess := s\<lparr>pos := p'\<rparr>\<rparr>))"

section \<open>The callback\<close>

text \<open>\<^verbatim>\<open>callback_mqtt\<close> (lines 152-285), case by case; the result is the return value and the new world.\<close>

definition callback_mqtt :: "world \<Rightarrow> callback_args \<Rightarrow> callback_error + (c_int \<times> world)" where
  "callback_mqtt w a =
    (case reason a of
       LWS_CALLBACK_CLIENT_CONNECTION_ERROR \<Rightarrow> Inr (0, w\<lparr>interrupted := 1\<rparr>)
     | LWS_CALLBACK_MQTT_CLIENT_CLOSED \<Rightarrow> Inr (0, w\<lparr>interrupted := 1\<rparr>)
     | LWS_CALLBACK_MQTT_CLIENT_ESTABLISHED \<Rightarrow>
         Inr (0, w\<lparr>calls := calls w @ [Callback_on_writable]\<rparr>)
     | LWS_CALLBACK_MQTT_SUBSCRIBED \<Rightarrow> Inr (0, w)
     | LWS_CALLBACK_MQTT_CLIENT_WRITEABLE \<Rightarrow>
         (if state (sess w) = STATE_SUBSCRIBE then
            (let w1 = w\<lparr>calls := calls w @ [Send_subscribe]\<rparr>
             in if send_rc a \<noteq> 0 then Inr (- 1, w1)
                else Inr (0, w1\<lparr>sess := (sess w)\<lparr>state := state (sess w) + 1\<rparr>\<rparr>))
          else if state (sess w) = STATE_PUBLISH_QOS0 \<or> state (sess w) = STATE_PUBLISH_QOS1 then
            Inr (publish_case 300 TEST_STRING_LEN w (send_rc a))
          else Inr (0, w))
     | LWS_CALLBACK_MQTT_ACK \<Rightarrow>
         (let s = (sess w)\<lparr>state := state (sess w) + 1\<rparr>
          in if state s \<noteq> STATE_TEST_FINISH then Inr (0, w\<lparr>sess := s\<rparr>)
             else Inr (0, w\<lparr>sess := s, bad := 0, interrupted := 1,
                             calls := calls w @ [Cancel_service]\<rparr>))
     | LWS_CALLBACK_MQTT_RESEND \<Rightarrow>
         (let s = (sess w)\<lparr>retries := retries (sess w) + 1\<rparr>
          in if retries s = 3 then Inr (0, w\<lparr>sess := s, interrupted := 1\<rparr>)
             else Inr (0, w\<lparr>sess := s\<lparr>state := state s - 1, pos := 0\<rparr>\<rparr>))
     | LWS_CALLBACK_MQTT_CLIENT_RX \<Rightarrow>
         (if in_null a then Inl Assertion_failed else Inr (0, w))
     | LWS_CALLBACK_OTHER \<Rightarrow> Inr (0, w))"

section \<open>Repeated feeding\<close>

text \<open>
  A publish leg is the feeder applied at one writable callback after the other, each send
  succeeding, until line 225 finds \<^verbatim>\<open>pos == len\<close>. The first argument bounds the number of
  writable callbacks; \<open>None\<close> means the leg is not over after that many. A chunk is recorded
  as (offset, size, final flag), the last three arguments of the publish call.
\<close>

fun feed :: "nat \<Rightarrow> size_t \<Rightarrow> size_t \<Rightarrow> size_t \<Rightarrow> (size_t \<times> size_t \<times> bool) list option" where
  "feed 0 maxc len p = None"
| "feed (Suc n) maxc len p =
    (let chunk = chunk_size maxc len p;
         fin = is_final len p chunk;
         p' = p + chunk
     in if p' = len then Some [(p, chunk, fin)]
        else map_option ((#) (p, chunk, fin)) (feed n maxc len p'))"

definition chunk_off :: "size_t \<times> size_t \<times> bool \<Rightarrow> size_t" where
  "chunk_off c = fst c"

definition chunk_len :: "size_t \<times> size_t \<times> bool \<Rightarrow> size_t" where
  "chunk_len c = fst (snd c)"

definition chunk_fin :: "size_t \<times> size_t \<times> bool \<Rightarrow> bool" where
  "chunk_fin c = snd (snd c)"

section \<open>The event loop\<close>

text \<open>
  Modelled from the spec: the allocation of \<^verbatim>\<open>struct pss\<close> is in the library core, which is
  not part of the source at hand. The spec starts a session in Subscribing with cursor 0 and
  retry counter 0 (section 3), which is the zeroed block.
\<close>

definition pss_init :: pss where
  "pss_init = \<lparr>state = STATE_SUBSCRIBE, pos = 0, retries = 0\<rparr>"

text \<open>The statics of line 27: \<^verbatim>\<open>interrupted\<close> is zero-initialised and \<^verbatim>\<open>bad = 1\<close>.\<close>

definition world_init :: world where
  "world_init = \<lparr>sess = pss_init, interrupted = 0, bad = 1, calls = []\<rparr>"

text \<open>
  Modelled from the spec: \<^verbatim>\<open>lws_service\<close> is in the library core, which is not part of the
  source at hand. Lines 336-337 call it while \<^verbatim>\<open>interrupted\<close> is zero; by section 5 of the
  spec the loop dispatches one event after the other to the callback and stops dispatching
  once the flag is set. A failed assertion ends the process. A non-zero return of the
  callback makes the library close the connection; the loop below puts no restriction on the
  events that follow it.
\<close>

fun service_loop :: "world \<Rightarrow> callback_args list \<Rightarrow> world" where
  "service_loop w [] = w"
| "service_loop w (a # as) =
    (if interrupted w \<noteq> 0 then w
     else case callback_mqtt w a of
            Inl e \<Rightarrow> w
          | Inr (n, w') \<Rightarrow> service_loop w' as)"

text \<open>The events of a list that the loop hands to the callback before it stops.\<close>

fun dispatched :: "world \<Rightarrow> callback_args list \<Rightarrow> callback_args list" where
  "dispatched w [] = []"
| "dispatched w (a # as) =
    (if interrupted w \<noteq> 0 then []
     else case callback_mqtt w a of
            Inl e \<Rightarrow> [a]
          | Inr (n, w') \<Rightarrow> a # dispatched w' as)"

text \<open>Events for the scenarios: a writable callback whose send succeeds, an ack, a resend.\<close>

definition ev :: "lws_callback_reasons \<Rightarrow> callback_args" where
  "ev r = \<lparr>reason = r, in_null = False, send_rc = 0\<rparr>"

abbreviation writeable_ok :: callback_args where
  "writeable_ok \<equiv> ev LWS_CALLBACK_MQTT_CLIENT_WRITEABLE"

abbreviation ack :: callback_args where
  "ack \<equiv> ev LWS_CALLBACK_MQTT_ACK"

abbreviation resend :: callback_args where
  "resend \<equiv> ev LWS_CALLBACK_MQTT_RESEND"

text \<open>The number of resend events in a list of events.\<close>

abbreviation (input) resends :: "callback_args list \<Rightarrow> nat" where
  "resends as \<equiv> length (filter (\<lambda>a. reason a = LWS_CALLBACK_MQTT_RESEND) as)"

section \<open>Properties of the feeder\<close>

text \<open>
  The chunk never exceeds what is left, so from a cursor inside the payload neither
  \<^verbatim>\<open>len - pos\<close> nor \<^verbatim>\<open>pos + chunk\<close> wraps around.
\<close>

lemma chunk_size_le: "chunk_size maxc len p \<le> len - p"
  by (simp add: chunk_size_def not_less)

lemma unat_add_chunk:
  assumes "p \<le> len"
  shows "unat (p + chunk_size maxc len p) = unat p + unat (chunk_size maxc len p)"
proof -
  have "unat (chunk_size maxc len p) \<le> unat (len - p)"
    using chunk_size_le [of maxc len p] by (simp add: word_le_nat_alt)
  also have "\<dots> = unat len - unat p"
    using assms by (simp add: unat_sub)
  finally have "unat p + unat (chunk_size maxc len p) \<le> unat len"
    using assms by (simp add: word_le_nat_alt)
  moreover have "unat len < 2 ^ 64"
    using unsigned_less [of len, where 'a = nat] by simp
  ultimately show ?thesis
    by (simp add: unat_word_ariths)
qed

lemma final_iff: "p + chunk_size maxc len p = len \<longleftrightarrow> chunk_size maxc len p = len - p"
  by (metis add_diff_cancel_left' diff_add_cancel)

lemma chunk_size_not_final:
  assumes "p + chunk_size maxc len p \<noteq> len"
  shows "chunk_size maxc len p = maxc"
  using assms unfolding final_iff by (simp add: chunk_size_def split: if_splits)

lemma step_le:
  assumes "p \<le> len"
  shows "p + chunk_size maxc len p \<le> len"
proof -
  have "unat (chunk_size maxc len p) \<le> unat (len - p)"
    using chunk_size_le [of maxc len p] by (simp add: word_le_nat_alt)
  also have "\<dots> = unat len - unat p"
    using assms by (simp add: unat_sub)
  finally have "unat p + unat (chunk_size maxc len p) \<le> unat len"
    using assms by (simp add: word_le_nat_alt)
  then show ?thesis
    by (simp add: word_le_nat_alt unat_add_chunk [OF assms])
qed

lemma step_rest:
  assumes "p \<le> len"
  shows "unat (len - (p + chunk_size maxc len p)) + unat (chunk_size maxc len p) = unat (len - p)"
proof -
  have "unat (len - (p + chunk_size maxc len p)) = unat len - unat (p + chunk_size maxc len p)"
    using step_le [OF assms] by (simp add: unat_sub)
  moreover have "unat (len - p) = unat len - unat p"
    using assms by (simp add: unat_sub)
  moreover have "unat (p + chunk_size maxc len p) \<le> unat len"
    using step_le [OF assms, of maxc] by (simp add: word_le_nat_alt)
  ultimately show ?thesis
    by (simp add: unat_add_chunk [OF assms])
qed

lemma step_pos:
  assumes "1 \<le> maxc" "p + chunk_size maxc len p \<noteq> len"
  shows "0 < unat (chunk_size maxc len p)"
  using assms chunk_size_not_final [OF assms(2)]
  by (simp add: word_le_nat_alt)

lemma chunk_sel [simp]:
  "chunk_off (p, c, f) = p" "chunk_len (p, c, f) = c" "chunk_fin (p, c, f) = f"
  by (simp_all add: chunk_off_def chunk_len_def chunk_fin_def)

lemma feed_total:
  "p \<le> len \<Longrightarrow> 1 \<le> maxc \<Longrightarrow> unat (len - p) < n \<Longrightarrow>
   \<exists>cs. feed n maxc len p = Some cs \<and> cs \<noteq> [] \<and>
        sum_list (map (\<lambda>c. unat (chunk_len c)) cs) = unat (len - p) \<and>
        filter chunk_fin cs = [last cs] \<and>
        chunk_off (last cs) + chunk_len (last cs) = len"
proof (induction n arbitrary: p)
  case 0
  then show ?case by simp
next
  case (Suc n)
  let ?c = "chunk_size maxc len p"
  show ?case
  proof (cases "p + ?c = len")
    case True
    then have "?c = len - p" by (simp add: final_iff)
    with True show ?thesis
      by (simp add: is_final_def)
  next
    case False
    have le: "p + ?c \<le> len" by (rule step_le [OF Suc.prems(1)])
    have "unat (len - (p + ?c)) < n"
      using step_rest [OF Suc.prems(1), of maxc] step_pos [OF Suc.prems(2) False] Suc.prems(3)
      by linarith
    from Suc.IH [OF le Suc.prems(2) this] obtain cs where
      cs: "feed n maxc len (p + ?c) = Some cs" "cs \<noteq> []"
        "sum_list (map (\<lambda>c. unat (chunk_len c)) cs) = unat (len - (p + ?c))"
        "filter chunk_fin cs = [last cs]"
        "chunk_off (last cs) + chunk_len (last cs) = len"
      by blast
    show ?thesis
      using False cs step_rest [OF Suc.prems(1), of maxc]
      by (simp add: is_final_def)
  qed
qed

lemma feed_mono: "feed n maxc len p = Some cs \<Longrightarrow> feed (n + k) maxc len p = Some cs"
proof (induction n arbitrary: p cs)
  case 0
  then show ?case by simp
next
  case (Suc n)
  then show ?case
    by (auto simp: Let_def split: if_splits)
qed

lemma feed_zero_len: "1 \<le> maxc \<Longrightarrow> feed (Suc n) maxc 0 0 = Some [(0, 0, True)]"
  by (simp add: chunk_size_def is_final_def not_less word_le_nat_alt)


text \<open>
  C1. For every payload length and every chunk limit of at least 1, feeding from cursor 0
  comes to an end within \<open>len + 1\<close> writable callbacks, and always with the same chunks:
  their sizes sum to the payload length, exactly one of them carries the final flag, it is
  the last one and it ends at the payload length. An empty payload gives the one chunk of
  size 0 with the final flag.
\<close>

theorem feed_covers_payload:
  assumes "1 \<le> maxc"
  shows "\<exists>cs. (\<forall>n. unat len < n \<longrightarrow> feed n maxc len 0 = Some cs) \<and>
           sum_list (map (\<lambda>c. unat (chunk_len c)) cs) = unat len \<and>
           length (filter chunk_fin cs) = 1 \<and>
           chunk_fin (last cs) \<and>
           chunk_off (last cs) + chunk_len (last cs) = len \<and>
           (len = 0 \<longrightarrow> cs = [(0, 0, True)])"
proof -
  from feed_total [of 0 len maxc "Suc (unat len)"] assms obtain cs where
    cs: "feed (Suc (unat len)) maxc len 0 = Some cs"
      "sum_list (map (\<lambda>c. unat (chunk_len c)) cs) = unat len"
      "filter chunk_fin cs = [last cs]"
      "chunk_off (last cs) + chunk_len (last cs) = len"
    by auto
  have "feed n maxc len 0 = Some cs" if "unat len < n" for n
  proof -
    from that obtain k where "n = Suc (unat len) + k"
      by (metis less_iff_Suc_add add_Suc)
    then show ?thesis using feed_mono [OF cs(1), of k] by simp
  qed
  moreover have "cs = [(0, 0, True)]" if "len = 0"
    using cs(1) feed_zero_len [OF assms, of 0] that by simp
  moreover have "length (filter chunk_fin cs) = 1"
    using cs(3) by simp
  moreover have "chunk_fin (last cs)"
  proof -
    have "last cs \<in> set (filter chunk_fin cs)" using cs(3) by simp
    then show ?thesis by simp
  qed
  ultimately show ?thesis using cs(2,4) by blast
qed

theorem feed_covers_payload_witness:
  "(1::size_t) \<le> 300 \<and>
   feed 1 300 0 0 = Some [(0, 0, True)] \<and>
   (\<exists>cs. feed 1338 300 1337 0 = Some cs \<and>
         sum_list (map (\<lambda>c. unat (chunk_len c)) cs) = 1337 \<and>
         length (filter chunk_fin cs) = 1 \<and>
         chunk_fin (last cs) \<and>
         chunk_off (last cs) + chunk_len (last cs) = 1337)"
proof -
  have le: "(1::size_t) \<le> 300" by simp
  have n0: "unat (0::size_t) < 1" and n1: "unat (1337::size_t) < 1338" by simp_all
  from feed_covers_payload [OF le, of 0] obtain cs0 where
    cs0: "\<forall>n. unat (0::size_t) < n \<longrightarrow> feed n 300 0 0 = Some cs0" "cs0 = [(0, 0, True)]"
    by auto
  from cs0(1) n0 have "feed 1 300 0 0 = Some cs0" by blast
  with cs0(2) have a: "feed 1 300 0 0 = Some [(0, 0, True)]" by (simp only:)
  from feed_covers_payload [OF le, of 1337] obtain cs where
    cs: "\<forall>n. unat (1337::size_t) < n \<longrightarrow> feed n 300 1337 0 = Some cs"
      "sum_list (map (\<lambda>c. unat (chunk_len c)) cs) = unat (1337::size_t)"
      "length (filter chunk_fin cs) = 1" "chunk_fin (last cs)"
      "chunk_off (last cs) + chunk_len (last cs) = 1337"
    by auto
  from cs(1) n1 have b: "feed 1338 300 1337 0 = Some cs" by blast
  have "unat (1337::size_t) = 1337" by simp
  with cs(2) have c: "sum_list (map (\<lambda>c. unat (chunk_len c)) cs) = 1337" by (simp only:)
  from b c cs(3-5) have "\<exists>cs. feed 1338 300 1337 0 = Some cs \<and>
         sum_list (map (\<lambda>c. unat (chunk_len c)) cs) = 1337 \<and>
         length (filter chunk_fin cs) = 1 \<and>
         chunk_fin (last cs) \<and>
         chunk_off (last cs) + chunk_len (last cs) = 1337"
    by blast
  with le a show ?thesis by blast
qed

section \<open>One callback\<close>

text \<open>The resend and the ack case as equations, for any world.\<close>

lemma callback_resend:
  "reason a = LWS_CALLBACK_MQTT_RESEND \<Longrightarrow>
   callback_mqtt w a =
     Inr (0, if retries (sess w) + 1 = 3
             then w\<lparr>sess := (sess w)\<lparr>retries := retries (sess w) + 1\<rparr>, interrupted := 1\<rparr>
             else w\<lparr>sess := (sess w)\<lparr>retries := retries (sess w) + 1,
                                     state := state (sess w) - 1, pos := 0\<rparr>\<rparr>)"
  by (simp add: callback_mqtt_def Let_def)

lemma callback_ack:
  "reason a = LWS_CALLBACK_MQTT_ACK \<Longrightarrow>
   callback_mqtt w a =
     Inr (0, if state (sess w) + 1 = STATE_TEST_FINISH
             then w\<lparr>sess := (sess w)\<lparr>state := state (sess w) + 1\<rparr>, bad := 0,
                    interrupted := 1, calls := calls w @ [Cancel_service]\<rparr>
             else w\<lparr>sess := (sess w)\<lparr>state := state (sess w) + 1\<rparr>\<rparr>)"
  by (simp add: callback_mqtt_def Let_def)

lemma callback_writeable_other:
  "reason a = LWS_CALLBACK_MQTT_CLIENT_WRITEABLE \<Longrightarrow>
   state (sess w) \<noteq> STATE_SUBSCRIBE \<Longrightarrow> state (sess w) \<noteq> STATE_PUBLISH_QOS0 \<Longrightarrow>
   state (sess w) \<noteq> STATE_PUBLISH_QOS1 \<Longrightarrow> callback_mqtt w a = Inr (0, w)"
  by (simp add: callback_mqtt_def)

lemma callback_send_failure:
  "reason a = LWS_CALLBACK_MQTT_CLIENT_WRITEABLE \<Longrightarrow> send_rc a \<noteq> 0 \<Longrightarrow>
   state (sess w) \<in> {STATE_SUBSCRIBE, STATE_PUBLISH_QOS0, STATE_PUBLISH_QOS1} \<Longrightarrow>
   \<exists>c. callback_mqtt w a = Inr (- 1, w\<lparr>calls := calls w @ [c]\<rparr>)"
  by (auto simp: callback_mqtt_def publish_case_def Let_def)

lemma callback_state_step:
  "callback_mqtt w a = Inr (r, w') \<Longrightarrow>
    (if reason a = LWS_CALLBACK_MQTT_RESEND \<and> retries (sess w) + 1 \<noteq> 3
     then state (sess w') = state (sess w) - 1
     else state (sess w') = state (sess w) \<or> state (sess w') = state (sess w) + 1)"
  by (cases "reason a") (auto simp: callback_mqtt_def publish_case_def Let_def split: if_splits)

lemma callback_bad:
  "callback_mqtt w a = Inr (r, w') \<Longrightarrow>
   bad w' = (if reason a = LWS_CALLBACK_MQTT_ACK \<and> state (sess w) = STATE_WAIT_ACK1
             then 0 else bad w)"
  by (cases "reason a") (auto simp: callback_mqtt_def publish_case_def Let_def split: if_splits)

text \<open>
  C6. A writable callback in \<^verbatim>\<open>STATE_WAIT_ACK0\<close>, \<^verbatim>\<open>STATE_WAIT_ACK1\<close> or \<^verbatim>\<open>STATE_TEST_FINISH\<close>
  returns 0 and leaves the world as it was: state, cursor, retry counter and flags are
  unchanged and no library call is made.
\<close>

theorem writeable_noop_outside_send_states:
  assumes "reason a = LWS_CALLBACK_MQTT_CLIENT_WRITEABLE"
    and "state (sess w) \<in> {STATE_WAIT_ACK0, STATE_WAIT_ACK1, STATE_TEST_FINISH}"
  shows "callback_mqtt w a = Inr (0, w)"
  using assms by (intro callback_writeable_other) auto

theorem writeable_noop_outside_send_states_witness:
  "reason writeable_ok = LWS_CALLBACK_MQTT_CLIENT_WRITEABLE \<and>
   STATE_WAIT_ACK1 \<in> {STATE_WAIT_ACK0, STATE_WAIT_ACK1, STATE_TEST_FINISH} \<and>
   callback_mqtt
     \<lparr>sess = \<lparr>state = STATE_WAIT_ACK1, pos = 0, retries = 0\<rparr>, interrupted = 0, bad = 1,
      calls = [Send_subscribe]\<rparr> writeable_ok =
   Inr (0, \<lparr>sess = \<lparr>state = STATE_WAIT_ACK1, pos = 0, retries = 0\<rparr>, interrupted = 0, bad = 1,
            calls = [Send_subscribe]\<rparr>)"
  using writeable_noop_outside_send_states
    [of writeable_ok "\<lparr>sess = \<lparr>state = STATE_WAIT_ACK1, pos = 0, retries = 0\<rparr>,
       interrupted = 0, bad = 1, calls = [Send_subscribe]\<rparr>"]
  by (simp add: callback_mqtt_def ev_def)

text \<open>
  C8. When the send primitive of a writable callback fails (subscribe in \<^verbatim>\<open>STATE_SUBSCRIBE\<close>,
  publish in the two publish states), the callback returns -1, which makes the library
  close the connection. It has made that one call and nothing else: the session block
  (state, cursor, retry counter) and both flags are as before, so \<^verbatim>\<open>bad\<close> stays set.
\<close>

theorem send_failure_fatal_no_retry:
  assumes "reason a = LWS_CALLBACK_MQTT_CLIENT_WRITEABLE"
    and "send_rc a \<noteq> 0"
    and "state (sess w) \<in> {STATE_SUBSCRIBE, STATE_PUBLISH_QOS0, STATE_PUBLISH_QOS1}"
  shows "\<exists>w'. callback_mqtt w a = Inr (- 1, w') \<and> sess w' = sess w \<and>
           bad w' = bad w \<and> interrupted w' = interrupted w \<and>
           (\<exists>c. calls w' = calls w @ [c])"
proof -
  from callback_send_failure [OF assms] obtain c where
    "callback_mqtt w a = Inr (- 1, w\<lparr>calls := calls w @ [c]\<rparr>)" ..
  then show ?thesis by simp
qed

theorem send_failure_fatal_no_retry_witness:
  "reason \<lparr>reason = LWS_CALLBACK_MQTT_CLIENT_WRITEABLE, in_null = False, send_rc = 1\<rparr> =
     LWS_CALLBACK_MQTT_CLIENT_WRITEABLE \<and>
   send_rc \<lparr>reason = LWS_CALLBACK_MQTT_CLIENT_WRITEABLE, in_null = False, send_rc = 1\<rparr> \<noteq> 0 \<and>
   STATE_PUBLISH_QOS1 \<in> {STATE_SUBSCRIBE, STATE_PUBLISH_QOS0, STATE_PUBLISH_QOS1} \<and>
   callback_mqtt
     \<lparr>sess = \<lparr>state = STATE_PUBLISH_QOS1, pos = 600, retries = 1\<rparr>, interrupted = 0, bad = 1,
      calls = []\<rparr>
     \<lparr>reason = LWS_CALLBACK_MQTT_CLIENT_WRITEABLE, in_null = False, send_rc = 1\<rparr> =
   Inr (- 1, \<lparr>sess = \<lparr>state = STATE_PUBLISH_QOS1, pos = 600, retries = 1\<rparr>, interrupted = 0,
              bad = 1, calls = [Send_publish QOS1 600 300 False]\<rparr>)"
  using send_failure_fatal_no_retry
    [of "\<lparr>reason = LWS_CALLBACK_MQTT_CLIENT_WRITEABLE, in_null = False, send_rc = 1\<rparr>"
        "\<lparr>sess = \<lparr>state = STATE_PUBLISH_QOS1, pos = 600, retries = 1\<rparr>, interrupted = 0,
          bad = 1, calls = []\<rparr>"]
  by (simp add: callback_mqtt_def publish_case_def chunk_size_def is_final_def)

text \<open>
  C9. An ack adds one to the state whatever the state is; the callback does not look at
  the state before it does so. The success outcome (\<^verbatim>\<open>bad = 0\<close>, \<^verbatim>\<open>interrupted = 1\<close>,
  \<^verbatim>\<open>lws_cancel_service\<close>) happens exactly when the incremented state is \<^verbatim>\<open>STATE_TEST_FINISH\<close>;
  otherwise flags and calls are unchanged.
\<close>

theorem ack_advances_any_state:
  assumes "reason a = LWS_CALLBACK_MQTT_ACK"
  shows "callback_mqtt w a =
     Inr (0, if state (sess w) + 1 = STATE_TEST_FINISH
             then w\<lparr>sess := (sess w)\<lparr>state := state (sess w) + 1\<rparr>, bad := 0,
                    interrupted := 1, calls := calls w @ [Cancel_service]\<rparr>
             else w\<lparr>sess := (sess w)\<lparr>state := state (sess w) + 1\<rparr>\<rparr>)"
  using assms by (rule callback_ack)

theorem ack_advances_any_state_witness:
  "reason ack = LWS_CALLBACK_MQTT_ACK \<and>
   callback_mqtt world_init ack =
     Inr (0, \<lparr>sess = \<lparr>state = STATE_PUBLISH_QOS0, pos = 0, retries = 0\<rparr>, interrupted = 0,
              bad = 1, calls = []\<rparr>) \<and>
   callback_mqtt
     \<lparr>sess = \<lparr>state = STATE_WAIT_ACK1, pos = 0, retries = 0\<rparr>, interrupted = 0, bad = 1,
      calls = []\<rparr> ack =
     Inr (0, \<lparr>sess = \<lparr>state = STATE_TEST_FINISH, pos = 0, retries = 0\<rparr>, interrupted = 1,
              bad = 0, calls = [Cancel_service]\<rparr>)"
  using ack_advances_any_state [of ack world_init]
    ack_advances_any_state [of ack "\<lparr>sess = \<lparr>state = STATE_WAIT_ACK1, pos = 0, retries = 0\<rparr>,
      interrupted = 0, bad = 1, calls = []\<rparr>"]
  by (simp add: callback_mqtt_def ev_def world_init_def pss_init_def)

text \<open>
  C10. A resend is handled without a look at the state. The retry counter is incremented;
  when the incremented counter is 3 the callback sets \<^verbatim>\<open>interrupted\<close> and leaves state, cursor,
  \<^verbatim>\<open>bad\<close> and the calls alone; for every other value, so for every value below 3, it
  subtracts one from the state, whatever it is, and resets the cursor to 0.
\<close>

theorem resend_ignores_state:
  assumes "reason a = LWS_CALLBACK_MQTT_RESEND"
  shows "callback_mqtt w a =
     Inr (0, if retries (sess w) + 1 = 3
             then w\<lparr>sess := (sess w)\<lparr>retries := retries (sess w) + 1\<rparr>, interrupted := 1\<rparr>
             else w\<lparr>sess := (sess w)\<lparr>retries := retries (sess w) + 1,
                                     state := state (sess w) - 1, pos := 0\<rparr>\<rparr>)"
  using assms by (rule callback_resend)

theorem resend_ignores_state_witness:
  "reason resend = LWS_CALLBACK_MQTT_RESEND \<and>
   callback_mqtt
     \<lparr>sess = \<lparr>state = STATE_PUBLISH_QOS0, pos = 300, retries = 0\<rparr>, interrupted = 0, bad = 1,
      calls = []\<rparr> resend =
     Inr (0, \<lparr>sess = \<lparr>state = STATE_SUBSCRIBE, pos = 0, retries = 1\<rparr>, interrupted = 0,
              bad = 1, calls = []\<rparr>) \<and>
   callback_mqtt
     \<lparr>sess = \<lparr>state = STATE_PUBLISH_QOS0, pos = 300, retries = 2\<rparr>, interrupted = 0, bad = 1,
      calls = []\<rparr> resend =
     Inr (0, \<lparr>sess = \<lparr>state = STATE_PUBLISH_QOS0, pos = 300, retries = 3\<rparr>, interrupted = 1,
              bad = 1, calls = []\<rparr>)"
  using resend_ignores_state [of resend "\<lparr>sess = \<lparr>state = STATE_PUBLISH_QOS0, pos = 300,
      retries = 0\<rparr>, interrupted = 0, bad = 1, calls = []\<rparr>"]
    resend_ignores_state [of resend "\<lparr>sess = \<lparr>state = STATE_PUBLISH_QOS0, pos = 300,
      retries = 2\<rparr>, interrupted = 0, bad = 1, calls = []\<rparr>"]
  by (simp add: callback_mqtt_def ev_def)

section \<open>The loop\<close>

text \<open>Only the assertion of the receive case makes the callback fail.\<close>

lemma callback_Inl_reason:
  "callback_mqtt w a = Inl e \<Longrightarrow> reason a = LWS_CALLBACK_MQTT_CLIENT_RX"
  by (cases "reason a") (auto simp: callback_mqtt_def Let_def split: if_splits)

text \<open>
  While the loop runs, \<^verbatim>\<open>bad\<close> is 1 and the retry counter is the number of resend events
  dispatched so far, which is below 3; the resend that makes it 3 sets \<^verbatim>\<open>interrupted\<close>.
\<close>

lemma retry_step:
  assumes "callback_mqtt w a = Inr (n, w')"
    and "retries (sess w) = of_nat k" and "k < 3"
    and "interrupted w = 0" and "bad w = 1"
  shows "retries (sess w') = of_nat (k + (if reason a = LWS_CALLBACK_MQTT_RESEND then 1 else 0))"
    and "interrupted w' = 0 \<longrightarrow>
           bad w' = 1 \<and> k + (if reason a = LWS_CALLBACK_MQTT_RESEND then 1 else 0) < 3"
    and "k + (if reason a = LWS_CALLBACK_MQTT_RESEND then 1 else 0) = 3 \<longrightarrow>
           interrupted w' = 1 \<and> bad w' = 1"
proof -
  from assms(3) consider "k = 0" | "k = 1" | "k = 2" by linarith
  then have "retries (sess w') = of_nat (k + (if reason a = LWS_CALLBACK_MQTT_RESEND then 1 else 0)) \<and>
    (interrupted w' = 0 \<longrightarrow>
           bad w' = 1 \<and> k + (if reason a = LWS_CALLBACK_MQTT_RESEND then 1 else 0) < 3) \<and>
    (k + (if reason a = LWS_CALLBACK_MQTT_RESEND then 1 else 0) = 3 \<longrightarrow>
           interrupted w' = 1 \<and> bad w' = 1)"
  proof cases
    case 1
    with assms show ?thesis
      by (cases "reason a") (auto simp: callback_mqtt_def publish_case_def Let_def split: if_splits)
  next
    case 2
    with assms show ?thesis
      by (cases "reason a") (auto simp: callback_mqtt_def publish_case_def Let_def split: if_splits)
  next
    case 3
    with assms show ?thesis
      by (cases "reason a") (auto simp: callback_mqtt_def publish_case_def Let_def split: if_splits)
  qed
  then show "retries (sess w') = of_nat (k + (if reason a = LWS_CALLBACK_MQTT_RESEND then 1 else 0))"
    and "interrupted w' = 0 \<longrightarrow>
           bad w' = 1 \<and> k + (if reason a = LWS_CALLBACK_MQTT_RESEND then 1 else 0) < 3"
    and "k + (if reason a = LWS_CALLBACK_MQTT_RESEND then 1 else 0) = 3 \<longrightarrow>
           interrupted w' = 1 \<and> bad w' = 1"
    by blast+
qed

lemma retry_loop:
  assumes "retries (sess w) = of_nat k" and "k \<le> 3"
    and "interrupted w = 0 \<longrightarrow> bad w = 1 \<and> k < 3"
    and "k = 3 \<longrightarrow> interrupted w = 1 \<and> bad w = 1"
  shows "retries (sess (service_loop w es)) = of_nat (k + resends (dispatched w es)) \<and>
         k + resends (dispatched w es) \<le> 3 \<and>
         (k + resends (dispatched w es) = 3 \<longrightarrow>
            interrupted (service_loop w es) = 1 \<and> bad (service_loop w es) = 1) \<and>
         (interrupted (service_loop w es) = 0 \<longrightarrow>
            bad (service_loop w es) = 1 \<and> k + resends (dispatched w es) < 3)"
  using assms
proof (induction es arbitrary: w k)
  case Nil
  then show ?case by simp
next
  case (Cons a es)
  show ?case
  proof (cases "interrupted w = 0")
    case False
    with Cons.prems show ?thesis by simp
  next
    case True
    with Cons.prems have b: "bad w = 1" and k: "k < 3" by simp_all
    show ?thesis
    proof (cases "callback_mqtt w a")
      case (Inl e)
      from callback_Inl_reason [OF Inl] have "reason a \<noteq> LWS_CALLBACK_MQTT_RESEND" by simp
      with Inl True Cons.prems k show ?thesis by simp
    next
      case (Inr p)
      obtain n w' where p: "p = (n, w')" by (cases p)
      let ?k = "k + (if reason a = LWS_CALLBACK_MQTT_RESEND then 1 else 0)"
      have cb: "callback_mqtt w a = Inr (n, w')" using Inr p by simp
      note st = retry_step [OF cb Cons.prems(1) k True b]
      have "?k \<le> 3" using k by simp
      note ih = Cons.IH [OF st(1) this st(2) st(3)]
      have sl: "service_loop w (a # es) = service_loop w' es"
        using cb True by simp
      have ks: "k + resends (dispatched w (a # es)) = ?k + resends (dispatched w' es)"
        using cb True by simp
      show ?thesis unfolding sl ks by (rule ih)
    qed
  qed
qed

text \<open>Once \<^verbatim>\<open>interrupted\<close> is set the loop dispatches nothing more.\<close>

lemma loop_stopped: "interrupted w \<noteq> 0 \<Longrightarrow> service_loop w es = w"
  by (cases es) simp_all

text \<open>\<^verbatim>\<open>bad\<close> is cleared only together with the move to \<^verbatim>\<open>STATE_TEST_FINISH\<close>.\<close>

lemma bad_loop:
  assumes "bad w = 1 \<or> (bad w = 0 \<and> interrupted w = 1 \<and> state (sess w) = STATE_TEST_FINISH)"
  shows "bad (service_loop w es) = 1 \<or>
         (bad (service_loop w es) = 0 \<and> interrupted (service_loop w es) = 1 \<and>
          state (sess (service_loop w es)) = STATE_TEST_FINISH)"
  using assms
proof (induction es arbitrary: w)
  case Nil
  then show ?case by simp
next
  case (Cons a es)
  show ?case
  proof (cases "interrupted w = 0")
    case False
    with Cons.prems show ?thesis by simp
  next
    case True
    with Cons.prems have b: "bad w = 1" by auto
    show ?thesis
    proof (cases "callback_mqtt w a")
      case (Inl e)
      with True b show ?thesis by simp
    next
      case (Inr p)
      obtain n w' where p: "p = (n, w')" by (cases p)
      have cb: "callback_mqtt w a = Inr (n, w')" using Inr p by simp
      have "bad w' = 1 \<or> (bad w' = 0 \<and> interrupted w' = 1 \<and> state (sess w') = STATE_TEST_FINISH)"
        using cb b by (cases "reason a") (auto simp: callback_mqtt_def publish_case_def Let_def split: if_splits)
      from Cons.IH [OF this] show ?thesis using cb True by simp
    qed
  qed
qed


text \<open>Writable callbacks outside the three sending states change nothing, however many.\<close>

lemma service_loop_idle:
  "state (sess w) \<noteq> STATE_SUBSCRIBE \<Longrightarrow> state (sess w) \<noteq> STATE_PUBLISH_QOS0 \<Longrightarrow>
   state (sess w) \<noteq> STATE_PUBLISH_QOS1 \<Longrightarrow>
   service_loop w (replicate k writeable_ok) = w"
  by (induction k) (simp_all add: callback_mqtt_def ev_def)


section \<open>A publish leg of the test payload\<close>

text \<open>The literal has the length that \<^verbatim>\<open>TEST_STRING_LEN\<close> states.\<close>

lemma length_test_string: "length test_string = 1337"
  unfolding test_string_def by simp

lemma replicate_small:
  "replicate 1 x = [x]" "replicate 2 x = [x, x]" "replicate 3 x = [x, x, x]"
  "replicate 4 x = [x, x, x, x]" "replicate 5 x = [x, x, x, x, x]"
  by (simp_all add: numeral_eq_Suc)

lemma publish_leg_run:
  assumes "state (sess w) = STATE_PUBLISH_QOS0 \<or> state (sess w) = STATE_PUBLISH_QOS1"
    and "interrupted w = 0" and "pos (sess w) = 0"
  shows "service_loop w (writeable_ok # writeable_ok # writeable_ok # writeable_ok #
           writeable_ok # as) =
     service_loop (w\<lparr>calls := calls w @
        (let q = (if state (sess w) = STATE_PUBLISH_QOS0 then QOS0 else QOS1)
         in [Send_publish q 0 300 False, Send_publish q 300 300 False,
             Send_publish q 600 300 False, Send_publish q 900 300 False,
             Send_publish q 1200 137 True]),
        sess := (sess w)\<lparr>pos := 0, state := state (sess w) + 1\<rparr>\<rparr>) as"
  using assms
  by (auto simp: callback_mqtt_def ev_def publish_case_def chunk_size_def is_final_def Let_def)

lemma publish_leg_calls:
  assumes "state (sess w) = STATE_PUBLISH_QOS0 \<or> state (sess w) = STATE_PUBLISH_QOS1"
    and "interrupted w = 0" and "pos (sess w) = 0"
  shows "calls (service_loop w (replicate n writeable_ok)) =
     calls w @ take n
        (let q = (if state (sess w) = STATE_PUBLISH_QOS0 then QOS0 else QOS1)
         in [Send_publish q 0 300 False, Send_publish q 300 300 False,
             Send_publish q 600 300 False, Send_publish q 900 300 False,
             Send_publish q 1200 137 True])"
proof -
  let ?five = "let q = (if state (sess w) = STATE_PUBLISH_QOS0 then QOS0 else QOS1)
         in [Send_publish q 0 300 False, Send_publish q 300 300 False,
             Send_publish q 600 300 False, Send_publish q 900 300 False,
             Send_publish q 1200 137 True]"
  have "n = 0 \<or> n = 1 \<or> n = 2 \<or> n = 3 \<or> n = 4 \<or> (\<exists>k. n = 5 + k)"
    by presburger
  then consider "n = 0" | "n = 1" | "n = 2" | "n = 3" | "n = 4" | k where "n = 5 + k"
    by blast
  then show ?thesis
  proof cases
    case 6
    let ?w' = "w\<lparr>calls := calls w @ ?five,
        sess := (sess w)\<lparr>pos := 0, state := state (sess w) + 1\<rparr>\<rparr>"
    have "replicate n writeable_ok = writeable_ok # writeable_ok # writeable_ok #
        writeable_ok # writeable_ok # replicate k writeable_ok"
      using 6 by (simp add: replicate_add replicate_small)
    then have "service_loop w (replicate n writeable_ok) =
        service_loop ?w' (replicate k writeable_ok)"
      using publish_leg_run [OF assms, of "replicate k writeable_ok"] by simp
    also have "\<dots> = ?w'"
      using assms(1) by (intro service_loop_idle) auto
    finally show ?thesis using 6 by (simp add: Let_def)
  qed (use assms in \<open>auto simp: callback_mqtt_def ev_def publish_case_def chunk_size_def
         is_final_def Let_def replicate_small\<close>)
qed


text \<open>
  C7. The payload has 1337 bytes and the limit is 300. From the start of a publish leg (either
  publish state, cursor 0), \<open>n\<close> writable callbacks with successful sends have made the first
  \<open>n\<close> of five publish calls, of sizes 300, 300, 300, 300 and 137 at offsets 0, 300, 600, 900
  and 1200, and no call beyond the fifth; the final flag is set on the fifth only, the one that
  brings the cursor to 1337. After the fifth the cursor is back at 0 and the state is the next one.
\<close>

theorem payload_1337_five_chunks:
  assumes "state (sess w) = STATE_PUBLISH_QOS0 \<or> state (sess w) = STATE_PUBLISH_QOS1"
    and "interrupted w = 0" and "pos (sess w) = 0"
  shows "length test_string = unat TEST_STRING_LEN \<and>
    (\<forall>n. calls (service_loop w (replicate n writeable_ok)) =
       calls w @ take n
        (let q = (if state (sess w) = STATE_PUBLISH_QOS0 then QOS0 else QOS1)
         in [Send_publish q 0 300 False, Send_publish q 300 300 False,
             Send_publish q 600 300 False, Send_publish q 900 300 False,
             Send_publish q 1200 137 True])) \<and>
    sess (service_loop w (replicate 5 writeable_ok)) =
      (sess w)\<lparr>pos := 0, state := state (sess w) + 1\<rparr>"
proof -
  have "sess (service_loop w (replicate 5 writeable_ok)) =
      (sess w)\<lparr>pos := 0, state := state (sess w) + 1\<rparr>"
    using publish_leg_run [OF assms, of "[]"] by (simp add: replicate_small)
  then show ?thesis
    using publish_leg_calls [OF assms] by (simp add: length_test_string)
qed

theorem payload_1337_five_chunks_witness:
  "(state (sess \<lparr>sess = \<lparr>state = STATE_PUBLISH_QOS0, pos = 0, retries = 0\<rparr>, interrupted = 0,
       bad = 1, calls = [Send_subscribe]\<rparr>) = STATE_PUBLISH_QOS0) \<and>
   length test_string = 1337 \<and>
   calls (service_loop \<lparr>sess = \<lparr>state = STATE_PUBLISH_QOS0, pos = 0, retries = 0\<rparr>,
       interrupted = 0, bad = 1, calls = [Send_subscribe]\<rparr> (replicate 4 writeable_ok)) =
     [Send_subscribe, Send_publish QOS0 0 300 False, Send_publish QOS0 300 300 False,
      Send_publish QOS0 600 300 False, Send_publish QOS0 900 300 False] \<and>
   calls (service_loop \<lparr>sess = \<lparr>state = STATE_PUBLISH_QOS0, pos = 0, retries = 0\<rparr>,
       interrupted = 0, bad = 1, calls = [Send_subscribe]\<rparr> (replicate 5 writeable_ok)) =
     [Send_subscribe, Send_publish QOS0 0 300 False, Send_publish QOS0 300 300 False,
      Send_publish QOS0 600 300 False, Send_publish QOS0 900 300 False,
      Send_publish QOS0 1200 137 True] \<and>
   calls (service_loop \<lparr>sess = \<lparr>state = STATE_PUBLISH_QOS0, pos = 0, retries = 0\<rparr>,
       interrupted = 0, bad = 1, calls = [Send_subscribe]\<rparr> (replicate 8 writeable_ok)) =
     [Send_subscribe, Send_publish QOS0 0 300 False, Send_publish QOS0 300 300 False,
      Send_publish QOS0 600 300 False, Send_publish QOS0 900 300 False,
      Send_publish QOS0 1200 137 True] \<and>
   sess (service_loop \<lparr>sess = \<lparr>state = STATE_PUBLISH_QOS0, pos = 0, retries = 0\<rparr>,
       interrupted = 0, bad = 1, calls = [Send_subscribe]\<rparr> (replicate 5 writeable_ok)) =
     \<lparr>state = STATE_WAIT_ACK0, pos = 0, retries = 0\<rparr>"
  using payload_1337_five_chunks
    [of "\<lparr>sess = \<lparr>state = STATE_PUBLISH_QOS0, pos = 0, retries = 0\<rparr>, interrupted = 0,
       bad = 1, calls = [Send_subscribe]\<rparr>"]
  by simp

section \<open>Resends while the session waits for the ack\<close>

text \<open>
  C4, as stated, fails. The full sequence up to the QoS1 leg brings the session to
  \<^verbatim>\<open>STATE_WAIT_ACK1\<close>. Of three resends that follow one another, the first moves the state
  back to \<^verbatim>\<open>STATE_PUBLISH_QOS1\<close>; the second finds it there and moves it to \<^verbatim>\<open>STATE_WAIT_ACK0\<close>,
  not to \<^verbatim>\<open>STATE_PUBLISH_QOS1\<close>.
\<close>

theorem consecutive_resends_counterexample:
  "service_loop world_init
     (writeable_ok # replicate 5 writeable_ok @ ack # replicate 5 writeable_ok) =
     \<lparr>sess = \<lparr>state = STATE_WAIT_ACK1, pos = 0, retries = 0\<rparr>, interrupted = 0, bad = 1,
      calls = [Send_subscribe,
        Send_publish QOS0 0 300 False, Send_publish QOS0 300 300 False,
        Send_publish QOS0 600 300 False, Send_publish QOS0 900 300 False,
        Send_publish QOS0 1200 137 True,
        Send_publish QOS1 0 300 False, Send_publish QOS1 300 300 False,
        Send_publish QOS1 600 300 False, Send_publish QOS1 900 300 False,
        Send_publish QOS1 1200 137 True]\<rparr> \<and>
   sess (service_loop world_init
     (writeable_ok # replicate 5 writeable_ok @ ack # replicate 5 writeable_ok @ [resend])) =
     \<lparr>state = STATE_PUBLISH_QOS1, pos = 0, retries = 1\<rparr> \<and>
   sess (service_loop world_init
     (writeable_ok # replicate 5 writeable_ok @ ack # replicate 5 writeable_ok @
      [resend, resend])) =
     \<lparr>state = STATE_WAIT_ACK0, pos = 0, retries = 2\<rparr>"
  by (simp add: callback_mqtt_def ev_def world_init_def pss_init_def Let_def replicate_small
      publish_case_def chunk_size_def is_final_def)

text \<open>
  C4, amended. A session waits in \<^verbatim>\<open>STATE_WAIT_ACK1\<close> with retry counter 0. When each of three
  resends reaches it in \<^verbatim>\<open>STATE_WAIT_ACK1\<close>, the payload being published again after the first
  and after the second, the first two move the state back to \<^verbatim>\<open>STATE_PUBLISH_QOS1\<close> with the
  cursor at 0 and leave \<^verbatim>\<open>interrupted\<close> clear, and the third sets \<^verbatim>\<open>interrupted\<close>, leaves \<^verbatim>\<open>bad\<close>
  as it was and does not move the state. When the three resends follow one another with
  nothing in between, each of the first two subtracts one from the state and resets the
  cursor, which gives \<^verbatim>\<open>STATE_PUBLISH_QOS1\<close> and then \<^verbatim>\<open>STATE_WAIT_ACK0\<close>, and the third sets
  \<^verbatim>\<open>interrupted\<close> and leaves \<^verbatim>\<open>bad\<close> all the same.
\<close>

theorem three_resends_in_wait_ack1:
  assumes "state (sess w) = STATE_WAIT_ACK1" and "retries (sess w) = 0"
    and "interrupted w = 0"
  shows "(let leg = replicate 5 writeable_ok;
              w1 = service_loop w [resend];
              w2 = service_loop w1 (leg @ [resend]);
              w3 = service_loop w2 (leg @ [resend])
          in state (sess w1) = STATE_PUBLISH_QOS1 \<and> pos (sess w1) = 0 \<and> interrupted w1 = 0 \<and>
             state (sess (service_loop w1 leg)) = STATE_WAIT_ACK1 \<and>
             state (sess w2) = STATE_PUBLISH_QOS1 \<and> pos (sess w2) = 0 \<and> interrupted w2 = 0 \<and>
             state (sess (service_loop w2 leg)) = STATE_WAIT_ACK1 \<and>
             interrupted w3 = 1 \<and> bad w3 = bad w \<and>
             sess w3 = \<lparr>state = STATE_WAIT_ACK1, pos = 0, retries = 3\<rparr>) \<and>
         (let v1 = service_loop w [resend];
              v2 = service_loop v1 [resend];
              v3 = service_loop v2 [resend]
          in sess v1 = \<lparr>state = STATE_PUBLISH_QOS1, pos = 0, retries = 1\<rparr> \<and>
             sess v2 = \<lparr>state = STATE_WAIT_ACK0, pos = 0, retries = 2\<rparr> \<and>
             sess v3 = \<lparr>state = STATE_WAIT_ACK0, pos = 0, retries = 3\<rparr> \<and>
             interrupted v3 = 1 \<and> bad v3 = bad w)"
  using assms
  by (simp add: callback_mqtt_def ev_def publish_case_def chunk_size_def is_final_def Let_def
      replicate_small)


theorem three_resends_in_wait_ack1_witness:
  "state (sess \<lparr>sess = \<lparr>state = STATE_WAIT_ACK1, pos = 0, retries = 0\<rparr>, interrupted = 0,
      bad = 1, calls = []\<rparr>) = STATE_WAIT_ACK1 \<and>
   retries (sess \<lparr>sess = \<lparr>state = STATE_WAIT_ACK1, pos = 0, retries = 0\<rparr>, interrupted = 0,
      bad = 1, calls = []\<rparr>) = 0 \<and>
   interrupted \<lparr>sess = \<lparr>state = STATE_WAIT_ACK1, pos = 0, retries = 0\<rparr>, interrupted = 0,
      bad = 1, calls = []\<rparr> = 0 \<and>
   (let leg = replicate 5 writeable_ok;
        w1 = service_loop \<lparr>sess = \<lparr>state = STATE_WAIT_ACK1, pos = 0, retries = 0\<rparr>,
               interrupted = 0, bad = 1, calls = []\<rparr> [resend];
        w2 = service_loop w1 (leg @ [resend]);
        w3 = service_loop w2 (leg @ [resend])
    in sess w1 = \<lparr>state = STATE_PUBLISH_QOS1, pos = 0, retries = 1\<rparr> \<and> interrupted w1 = 0 \<and>
       sess w2 = \<lparr>state = STATE_PUBLISH_QOS1, pos = 0, retries = 2\<rparr> \<and> interrupted w2 = 0 \<and>
       sess w3 = \<lparr>state = STATE_WAIT_ACK1, pos = 0, retries = 3\<rparr> \<and> interrupted w3 = 1 \<and>
       bad w3 = 1) \<and>
   service_loop \<lparr>sess = \<lparr>state = STATE_WAIT_ACK1, pos = 0, retries = 0\<rparr>, interrupted = 0,
      bad = 1, calls = []\<rparr> [resend, resend, resend] =
     \<lparr>sess = \<lparr>state = STATE_WAIT_ACK0, pos = 0, retries = 3\<rparr>, interrupted = 1, bad = 1,
      calls = []\<rparr>"
  using three_resends_in_wait_ack1
    [of "\<lparr>sess = \<lparr>state = STATE_WAIT_ACK1, pos = 0, retries = 0\<rparr>, interrupted = 0,
       bad = 1, calls = []\<rparr>"]
  by (simp add: callback_mqtt_def ev_def publish_case_def chunk_size_def is_final_def Let_def
      replicate_small)

section \<open>Direction of the state\<close>

text \<open>
  C2, as stated, fails. After the subscribe the session is in \<^verbatim>\<open>STATE_PUBLISH_QOS0\<close>; a resend
  that arrives there moves it back to \<^verbatim>\<open>STATE_SUBSCRIBE\<close>, a backward transition that is not the
  one from \<^verbatim>\<open>STATE_WAIT_ACK1\<close> to \<^verbatim>\<open>STATE_PUBLISH_QOS1\<close>.
\<close>

theorem backward_edge_counterexample:
  "service_loop world_init [writeable_ok] =
     \<lparr>sess = \<lparr>state = STATE_PUBLISH_QOS0, pos = 0, retries = 0\<rparr>, interrupted = 0, bad = 1,
      calls = [Send_subscribe]\<rparr> \<and>
   service_loop world_init [writeable_ok, resend] =
     \<lparr>sess = \<lparr>state = STATE_SUBSCRIBE, pos = 0, retries = 1\<rparr>, interrupted = 0, bad = 1,
      calls = [Send_subscribe]\<rparr>"
  by (simp add: callback_mqtt_def ev_def world_init_def pss_init_def)

text \<open>
  C2, amended. A callback moves the state backward only for a resend whose incremented
  retry counter is not 3, and then by exactly one, from whatever state the session is in
  (from \<^verbatim>\<open>STATE_WAIT_ACK1\<close> this is the edge to \<^verbatim>\<open>STATE_PUBLISH_QOS1\<close>). Every other callback
  leaves the state as it is or adds one to it.
\<close>

theorem backward_only_on_resend:
  assumes "callback_mqtt w a = Inr (r, w')"
  shows "if reason a = LWS_CALLBACK_MQTT_RESEND \<and> retries (sess w) + 1 \<noteq> 3
         then state (sess w') = state (sess w) - 1
         else state (sess w') = state (sess w) \<or> state (sess w') = state (sess w) + 1"
  using assms by (rule callback_state_step)

theorem backward_only_on_resend_witness:
  "callback_mqtt
     \<lparr>sess = \<lparr>state = STATE_WAIT_ACK1, pos = 0, retries = 0\<rparr>, interrupted = 0, bad = 1,
      calls = []\<rparr> resend =
     Inr (0, \<lparr>sess = \<lparr>state = STATE_PUBLISH_QOS1, pos = 0, retries = 1\<rparr>, interrupted = 0,
              bad = 1, calls = []\<rparr>) \<and>
   state (sess \<lparr>sess = \<lparr>state = STATE_PUBLISH_QOS1, pos = 0, retries = 1\<rparr>, interrupted = 0,
              bad = 1, calls = []\<rparr>) = STATE_WAIT_ACK1 - 1"
  using backward_only_on_resend [of
     "\<lparr>sess = \<lparr>state = STATE_WAIT_ACK1, pos = 0, retries = 0\<rparr>, interrupted = 0, bad = 1,
      calls = []\<rparr>" resend 0
     "\<lparr>sess = \<lparr>state = STATE_PUBLISH_QOS1, pos = 0, retries = 1\<rparr>, interrupted = 0,
              bad = 1, calls = []\<rparr>"]
  by (simp add: callback_mqtt_def ev_def)

section \<open>The retry counter\<close>

text \<open>
  C3. The retry counter starts at 0. In every run of the loop it is the number of resend
  events dispatched, and that number is at most 3. A resend increments the counter before
  the comparison with 3: while the loop runs the counter is below 3, the resend that finds
  it at 2 makes it 3 and sets \<^verbatim>\<open>interrupted\<close> without moving state or cursor, and any other resend
  rewinds. Once the counter is 3, \<^verbatim>\<open>interrupted\<close> is 1, \<^verbatim>\<open>bad\<close> is still 1 and the loop
  dispatches nothing more, so there is no fourth resend.
\<close>

theorem retry_counter_ceiling:
  "retries (sess world_init) = 0 \<and>
   (let w = service_loop world_init es; k = resends (dispatched world_init es)
    in retries (sess w) = of_nat k \<and> k \<le> 3 \<and>
       (k = 3 \<longrightarrow> interrupted w = 1 \<and> bad w = 1 \<and> (\<forall>es'. service_loop w es' = w)) \<and>
       (interrupted w = 0 \<longrightarrow> k < 3 \<and>
          (\<forall>a. reason a = LWS_CALLBACK_MQTT_RESEND \<longrightarrow>
             callback_mqtt w a =
               Inr (0, if k = 2
                       then w\<lparr>sess := (sess w)\<lparr>retries := 3\<rparr>, interrupted := 1\<rparr>
                       else w\<lparr>sess := (sess w)\<lparr>retries := of_nat (k + 1),
                              state := state (sess w) - 1, pos := 0\<rparr>\<rparr>))))"
proof -
  let ?w = "service_loop world_init es"
  let ?k = "resends (dispatched world_init es)"
  have init: "retries (sess world_init) = of_nat 0" "interrupted world_init = 0"
    "bad world_init = 1"
    by (simp_all add: world_init_def pss_init_def)
  from retry_loop [of world_init 0 es] init
  have l: "retries (sess ?w) = of_nat ?k" "?k \<le> 3"
    "?k = 3 \<longrightarrow> interrupted ?w = 1 \<and> bad ?w = 1"
    "interrupted ?w = 0 \<longrightarrow> bad ?w = 1 \<and> ?k < 3"
    by simp_all
  have stop: "service_loop ?w es' = ?w" if "?k = 3" for es'
    using l(3) that by (intro loop_stopped) simp
  have step: "callback_mqtt ?w a =
               Inr (0, if ?k = 2
                       then ?w\<lparr>sess := (sess ?w)\<lparr>retries := 3\<rparr>, interrupted := 1\<rparr>
                       else ?w\<lparr>sess := (sess ?w)\<lparr>retries := of_nat (?k + 1),
                              state := state (sess ?w) - 1, pos := 0\<rparr>\<rparr>)"
    if "interrupted ?w = 0" "reason a = LWS_CALLBACK_MQTT_RESEND" for a
  proof -
    from l(4) that(1) have "?k < 3" by simp
    then consider "?k = 0" | "?k = 1" | "?k = 2" by linarith
    then show ?thesis
      by cases (simp_all add: callback_resend [OF that(2)] l(1))
  qed
  show ?thesis
    using init(1) l stop step by (simp add: Let_def)
qed

theorem retry_counter_ceiling_witness:
  "retries (sess world_init) = 0 \<and>
   (let es = writeable_ok # replicate 5 writeable_ok @ ack # replicate 5 writeable_ok @
             resend # replicate 5 writeable_ok @ resend # replicate 5 writeable_ok @
             [resend, resend]
    in retries (sess (service_loop world_init es)) = 3 \<and>
       resends (dispatched world_init es) = 3 \<and>
       interrupted (service_loop world_init es) = 1 \<and>
       bad (service_loop world_init es) = 1 \<and>
       state (sess (service_loop world_init es)) = STATE_WAIT_ACK1)"
  using retry_counter_ceiling
    [of "writeable_ok # replicate 5 writeable_ok @ ack # replicate 5 writeable_ok @
         resend # replicate 5 writeable_ok @ resend # replicate 5 writeable_ok @
         [resend, resend]"]
  by (simp add: callback_mqtt_def ev_def world_init_def pss_init_def Let_def replicate_small
      publish_case_def chunk_size_def is_final_def)

section \<open>The failed flag\<close>

text \<open>
  C5, as stated, fails twice. A failed send leaves \<^verbatim>\<open>interrupted\<close> at 0: the callback returns
  -1 and sets no flag. And \<^verbatim>\<open>bad\<close> is cleared by the ack that reaches \<^verbatim>\<open>STATE_TEST_FINISH\<close>
  whatever came before: five acks in a row clear it with no subscribe and no publish made.
\<close>

theorem failed_flag_counterexample:
  "callback_mqtt world_init
     \<lparr>reason = LWS_CALLBACK_MQTT_CLIENT_WRITEABLE, in_null = False, send_rc = 1\<rparr> =
     Inr (- 1, \<lparr>sess = \<lparr>state = STATE_SUBSCRIBE, pos = 0, retries = 0\<rparr>, interrupted = 0,
                bad = 1, calls = [Send_subscribe]\<rparr>) \<and>
   service_loop world_init [ack, ack, ack, ack, ack] =
     \<lparr>sess = \<lparr>state = STATE_TEST_FINISH, pos = 0, retries = 0\<rparr>, interrupted = 1, bad = 0,
      calls = [Cancel_service]\<rparr>"
  by (simp add: callback_mqtt_def ev_def world_init_def pss_init_def)

text \<open>The full sequence: subscribe, the QoS0 leg, its ack, the QoS1 leg, its ack.\<close>

lemma scenario_B_run:
  "service_loop world_init
     (writeable_ok # replicate 5 writeable_ok @ ack # replicate 5 writeable_ok @ [ack]) =
   \<lparr>sess = \<lparr>state = STATE_TEST_FINISH, pos = 0, retries = 0\<rparr>, interrupted = 1, bad = 0,
    calls = [Send_subscribe,
      Send_publish QOS0 0 300 False, Send_publish QOS0 300 300 False,
      Send_publish QOS0 600 300 False, Send_publish QOS0 900 300 False,
      Send_publish QOS0 1200 137 True,
      Send_publish QOS1 0 300 False, Send_publish QOS1 300 300 False,
      Send_publish QOS1 600 300 False, Send_publish QOS1 900 300 False,
      Send_publish QOS1 1200 137 True, Cancel_service]\<rparr>"
  by (simp add: callback_mqtt_def ev_def world_init_def pss_init_def Let_def replicate_small
      publish_case_def chunk_size_def is_final_def)

lemma callback_fatal_event:
  "reason a = LWS_CALLBACK_CLIENT_CONNECTION_ERROR \<or> reason a = LWS_CALLBACK_MQTT_CLIENT_CLOSED \<Longrightarrow>
   callback_mqtt w a = Inr (0, w\<lparr>interrupted := 1\<rparr>)"
  by (auto simp: callback_mqtt_def)

text \<open>
  C5, amended. \<^verbatim>\<open>bad\<close> is 1 at the start. A connection error and a closure set \<^verbatim>\<open>interrupted\<close>
  and leave \<^verbatim>\<open>bad\<close>; so does the resend that makes the retry counter 3. A failed send makes
  the callback return -1 and changes neither flag. A callback clears \<^verbatim>\<open>bad\<close> exactly when it is
  an ack received in \<^verbatim>\<open>STATE_WAIT_ACK1\<close>, the ack that moves the state to \<^verbatim>\<open>STATE_TEST_FINISH\<close>, and
  else leaves it; how the session came to \<^verbatim>\<open>STATE_WAIT_ACK1\<close> is not checked. In every run of the
  loop \<^verbatim>\<open>bad\<close> is 1, or it is 0 with \<^verbatim>\<open>interrupted\<close> set and the state \<^verbatim>\<open>STATE_TEST_FINISH\<close>. The
  full sequence ends in \<^verbatim>\<open>STATE_TEST_FINISH\<close> with \<^verbatim>\<open>bad\<close> cleared.
\<close>

theorem failed_flag_cleared_by_final_ack:
  "bad world_init = 1 \<and>
   (reason a = LWS_CALLBACK_CLIENT_CONNECTION_ERROR \<or> reason a = LWS_CALLBACK_MQTT_CLIENT_CLOSED \<longrightarrow>
      callback_mqtt w a = Inr (0, w\<lparr>interrupted := 1\<rparr>)) \<and>
   (reason a = LWS_CALLBACK_MQTT_RESEND \<and> retries (sess w) + 1 = 3 \<longrightarrow>
      callback_mqtt w a =
        Inr (0, w\<lparr>sess := (sess w)\<lparr>retries := 3\<rparr>, interrupted := 1\<rparr>)) \<and>
   (reason a = LWS_CALLBACK_MQTT_CLIENT_WRITEABLE \<and> send_rc a \<noteq> 0 \<and>
    state (sess w) \<in> {STATE_SUBSCRIBE, STATE_PUBLISH_QOS0, STATE_PUBLISH_QOS1} \<longrightarrow>
      (\<exists>c. callback_mqtt w a = Inr (- 1, w\<lparr>calls := calls w @ [c]\<rparr>))) \<and>
   (callback_mqtt w a = Inr (r, w') \<longrightarrow>
      bad w' = (if reason a = LWS_CALLBACK_MQTT_ACK \<and> state (sess w) = STATE_WAIT_ACK1
                then 0 else bad w)) \<and>
   (bad (service_loop world_init es) = 1 \<or>
    bad (service_loop world_init es) = 0 \<and> interrupted (service_loop world_init es) = 1 \<and>
    state (sess (service_loop world_init es)) = STATE_TEST_FINISH) \<and>
   (let wb = service_loop world_init
       (writeable_ok # replicate 5 writeable_ok @ ack # replicate 5 writeable_ok @ [ack])
    in state (sess wb) = STATE_TEST_FINISH \<and> bad wb = 0 \<and> interrupted wb = 1)"
proof -
  have c1: "bad world_init = 1" by (simp add: world_init_def)
  have c2: "reason a = LWS_CALLBACK_CLIENT_CONNECTION_ERROR \<or>
      reason a = LWS_CALLBACK_MQTT_CLIENT_CLOSED \<longrightarrow>
      callback_mqtt w a = Inr (0, w\<lparr>interrupted := 1\<rparr>)"
    using callback_fatal_event [of a w] by blast
  have c3: "reason a = LWS_CALLBACK_MQTT_RESEND \<and> retries (sess w) + 1 = 3 \<longrightarrow>
      callback_mqtt w a =
        Inr (0, w\<lparr>sess := (sess w)\<lparr>retries := 3\<rparr>, interrupted := 1\<rparr>)"
    by (simp add: callback_resend)
  have c4: "reason a = LWS_CALLBACK_MQTT_CLIENT_WRITEABLE \<and> send_rc a \<noteq> 0 \<and>
    state (sess w) \<in> {STATE_SUBSCRIBE, STATE_PUBLISH_QOS0, STATE_PUBLISH_QOS1} \<longrightarrow>
      (\<exists>c. callback_mqtt w a = Inr (- 1, w\<lparr>calls := calls w @ [c]\<rparr>))"
    using callback_send_failure [of a w] by blast
  have c5: "callback_mqtt w a = Inr (r, w') \<longrightarrow>
      bad w' = (if reason a = LWS_CALLBACK_MQTT_ACK \<and> state (sess w) = STATE_WAIT_ACK1
                then 0 else bad w)"
    using callback_bad [of w a r w'] by blast
  have c6: "bad (service_loop world_init es) = 1 \<or>
    bad (service_loop world_init es) = 0 \<and> interrupted (service_loop world_init es) = 1 \<and>
    state (sess (service_loop world_init es)) = STATE_TEST_FINISH"
    by (rule bad_loop) (simp add: world_init_def)
  have c7: "let wb = service_loop world_init
       (writeable_ok # replicate 5 writeable_ok @ ack # replicate 5 writeable_ok @ [ack])
    in state (sess wb) = STATE_TEST_FINISH \<and> bad wb = 0 \<and> interrupted wb = 1"
    unfolding scenario_B_run Let_def by simp
  show ?thesis
    by (intro conjI c1 c2 c3 c4 c5 c6 c7)
qed

theorem failed_flag_cleared_by_final_ack_witness:
  "callback_mqtt
     \<lparr>sess = \<lparr>state = STATE_WAIT_ACK1, pos = 0, retries = 0\<rparr>, interrupted = 0, bad = 1,
      calls = []\<rparr> ack =
     Inr (0, \<lparr>sess = \<lparr>state = STATE_TEST_FINISH, pos = 0, retries = 0\<rparr>, interrupted = 1,
              bad = 0, calls = [Cancel_service]\<rparr>) \<and>
   bad \<lparr>sess = \<lparr>state = STATE_TEST_FINISH, pos = 0, retries = 0\<rparr>, interrupted = 1,
        bad = 0, calls = [Cancel_service]\<rparr> = 0 \<and>
   bad world_init = 1 \<and>
   bad (service_loop world_init
       (writeable_ok # replicate 5 writeable_ok @ ack # replicate 5 writeable_ok @ [ack])) = 0"
  using failed_flag_cleared_by_final_ack [of ack
      "\<lparr>sess = \<lparr>state = STATE_WAIT_ACK1, pos = 0, retries = 0\<rparr>, interrupted = 0, bad = 1,
        calls = []\<rparr>" 0
      "\<lparr>sess = \<lparr>state = STATE_TEST_FINISH, pos = 0, retries = 0\<rparr>, interrupted = 1,
        bad = 0, calls = [Cancel_service]\<rparr>" "[]"]
  by (simp add: callback_mqtt_def ev_def Let_def)

end
